theory Spec2Isabelle
  imports Main
begin

section \<open>Python strings\<close>

text \<open>
  A Python \<open>str\<close> is a sequence of Unicode code points. It is modelled as a list of
  natural numbers, one per code point, so that \<open>len\<close>, \<open>strip\<close> and \<open>split\<close> count what
  Python counts. Literals of the program are written with \<open>lit\<close>.
\<close>

type_synonym str = "nat list"

definition lit :: "string \<Rightarrow> str" where
  "lit s = map of_char s"

text \<open>
  \<open>str.strip()\<close> without argument removes leading and trailing white space, that is the
  code points for which \<open>str.isspace\<close> holds.
\<close>

definition isspace :: "nat \<Rightarrow> bool" where
  "isspace c \<longleftrightarrow>
     (9 \<le> c \<and> c \<le> 13) \<or> (28 \<le> c \<and> c \<le> 32) \<or> c = 133 \<or> c = 160 \<or> c = 5760 \<or>
     (8192 \<le> c \<and> c \<le> 8202) \<or> c = 8232 \<or> c = 8233 \<or> c = 8239 \<or> c = 8287 \<or> c = 12288"

definition strip :: "str \<Rightarrow> str" where
  "strip s = rev (dropWhile isspace (rev (dropWhile isspace s)))"

definition comma :: nat where
  "comma = 44"

text \<open>
  \<open>s.split(sep)\<close> for a one-character separator: the segments between the separators,
  empty segments included; the empty string gives one empty segment.
  \<open>split_aux\<close> returns the first segment and the remaining ones.
\<close>

fun split_aux :: "nat \<Rightarrow> str \<Rightarrow> str \<times> str list" where
  "split_aux sep [] = ([], [])"
| "split_aux sep (c # cs) =
     (let (w, ws) = split_aux sep cs
      in if c = sep then ([], w # ws) else (c # w, ws))"

definition str_split :: "nat \<Rightarrow> str \<Rightarrow> str list" where
  "str_split sep s = (let (w, ws) = split_aux sep s in w # ws)"

text \<open>\<open>sep.join(xs)\<close>.\<close>

fun join :: "str \<Rightarrow> str list \<Rightarrow> str" where
  "join sep [] = []"
| "join sep [x] = x"
| "join sep (x # y # ys) = x @ sep @ join sep (y # ys)"

text \<open>\<open>str(n)\<close> for a non-negative integer: its decimal digits.\<close>

fun str_of_nat :: "nat \<Rightarrow> str" where
  "str_of_nat n = (if n < 10 then [48 + n] else str_of_nat (n div 10) @ [48 + n mod 10])"

declare str_of_nat.simps [simp del]

section \<open>The parameter dictionary\<close>

text \<open>
  \<open>st.session_state.parameters\<close> is a \<open>dict\<close> from parameter name to the list of its
  values. A \<open>dict\<close> keeps its keys in insertion order, and the order is the order of the
  columns of the result table, so the dictionary is an association list; its keys are
  pairwise distinct (\<open>dict_ok\<close>).
\<close>

type_synonym parameters = "(str \<times> str list) list"

datatype py_error = KeyError | IndexError | ValueError

definition dict_ok :: "('k \<times> 'v) list \<Rightarrow> bool" where
  "dict_ok d \<longleftrightarrow> distinct (map fst d)"

definition dict_keys :: "('k \<times> 'v) list \<Rightarrow> 'k list" where
  "dict_keys d = map fst d"

definition dict_mem :: "'k \<Rightarrow> ('k \<times> 'v) list \<Rightarrow> bool" where
  "dict_mem k d \<longleftrightarrow> k \<in> set (dict_keys d)"

text \<open>\<open>d[k] = v\<close>: an existing key keeps its position, a new key goes to the end.\<close>

fun dict_set :: "'k \<Rightarrow> 'v \<Rightarrow> ('k \<times> 'v) list \<Rightarrow> ('k \<times> 'v) list" where
  "dict_set k v [] = [(k, v)]"
| "dict_set k v (p # d) = (if fst p = k then (k, v) # d else p # dict_set k v d)"

text \<open>\<open>del d[k]\<close> raises \<open>KeyError\<close> for an absent key.\<close>

definition dict_del :: "'k \<Rightarrow> ('k \<times> 'v) list \<Rightarrow> py_error + ('k \<times> 'v) list" where
  "dict_del k d =
     (if dict_mem k d then Inr (filter (\<lambda>p. fst p \<noteq> k) d) else Inl KeyError)"

text \<open>
  The session state either has no \<open>parameters\<close> entry yet (\<open>None\<close>) or holds the
  dictionary.
\<close>

type_synonym session_state = "parameters option"

definition default_parameters :: parameters where
  "default_parameters =
     [(lit ''Display Mode'', [lit ''Full Graph'', lit ''Text Only'', lit ''Limited-Bandwidth'']),
      (lit ''Language'', [lit ''English'', lit ''French'', lit ''Spanish'', lit ''Turkish'']),
      (lit ''Fonts'', [lit ''Minimal'', lit ''Standard'', lit ''Document-loaded'']),
      (lit ''Color'', [lit ''Monochrome'', lit ''Colormap'', lit ''16-bit'', lit ''True Color'']),
      (lit ''Screen Size'', [lit ''Hand-held'', lit ''laptop'', lit ''fullsize''])]"

definition initialize_session_state :: "session_state \<Rightarrow> session_state" where
  "initialize_session_state s =
     (case s of None \<Rightarrow> Some default_parameters | Some ps \<Rightarrow> Some ps)"

section \<open>Validation\<close>

definition validate_parameter_name :: "parameters \<Rightarrow> str \<Rightarrow> bool \<times> str" where
  "validate_parameter_name ps name =
     (if name = [] \<or> strip name = [] then (False, lit ''Parameter name cannot be empty'')
      else if dict_mem (strip name) ps then (False, lit ''Parameter name already exists'')
      else (True, lit ''''))"

text \<open>
  The comprehension \<open>[v.strip() for v in values.split(',') if v.strip()]\<close>: the
  segments that are not empty once stripped, stripped, in their order.
\<close>

definition clean_values :: "str \<Rightarrow> str list" where
  "clean_values values = map strip (filter (\<lambda>v. strip v \<noteq> []) (str_split comma values))"

text \<open>
  \<open>len(set(values_list))\<close> is the number of different elements of the list, which is
  the length of the list without its repetitions.
\<close>

definition validate_parameter_values :: "str \<Rightarrow> bool \<times> str list \<times> str" where
  "validate_parameter_values values =
     (if values = [] \<or> strip values = [] then (False, [], lit ''Values cannot be empty'')
      else
        let values_list = clean_values values
        in if values_list = [] then (False, [], lit ''No valid values provided'')
           else if length values_list \<noteq> length (remdups values_list)
             then (False, [], lit ''Duplicate values are not allowed'')
           else if length values_list < 2
             then (False, [], lit ''At least 2 values are required for each parameter'')
           else (True, values_list, lit ''''))"

text \<open>
  The condition on the values as the specification words it, for comparison with the
  function above: every comma-separated segment, once stripped, is non-empty; there are
  at least two of them; no two are equal.
\<close>

definition values_as_specified :: "str \<Rightarrow> bool" where
  "values_as_specified values \<longleftrightarrow>
     (let vs = map strip (str_split comma values)
      in (\<forall>v \<in> set vs. v \<noteq> []) \<and> 2 \<le> length vs \<and> distinct vs)"

section \<open>Editing the parameter set\<close>

text \<open>
  One run of the script reacts to at most one button. Each handler is a function from
  the dictionary (and the text of the input fields) to the new dictionary and the
  messages shown. Only the calls that carry data are recorded: \<open>st.error\<close>,
  \<open>st.success\<close>, \<open>st.metric\<close>, the arguments of the \<open>DataFrame\<close> that is displayed,
  \<open>st.rerun\<close>, and an exception that nothing catches. A cell of the table is a string,
  an integer, or the missing value that fills a short row.
\<close>

datatype cell = CStr str | CInt nat | CNone

datatype ui_event =
    Error str
  | Success str
  | Metric str nat
  | Dataframe "str list" "cell list list"
  | Rerun
  | Uncaught py_error

text \<open>The button \<open>Add Parameter\<close>, with the two text inputs.\<close>

definition add_parameter :: "parameters \<Rightarrow> str \<Rightarrow> str \<Rightarrow> parameters \<times> ui_event list" where
  "add_parameter ps new_param new_values =
     (let (name_valid, name_error) = validate_parameter_name ps new_param
      in if \<not> name_valid then (ps, [Error name_error])
         else
           let (values_valid, values_list, values_error) = validate_parameter_values new_values
           in if \<not> values_valid then (ps, [Error values_error])
              else (dict_set (strip new_param) values_list ps,
                    [Success (lit ''Added parameter: '' @ new_param)]))"

text \<open>The button \<open>Update\<close> of the parameter \<open>param\<close>, with the text of its input.\<close>

definition update_parameter :: "parameters \<Rightarrow> str \<Rightarrow> str \<Rightarrow> parameters \<times> ui_event list" where
  "update_parameter ps param values =
     (let (values_valid, values_list, values_error) = validate_parameter_values values
      in if \<not> values_valid then (ps, [Error values_error])
         else (dict_set param values_list ps, [Success (lit ''Updated '' @ param)]))"

text \<open>The button \<open>Delete\<close> of the parameter \<open>param\<close>.\<close>

definition delete_parameter :: "parameters \<Rightarrow> str \<Rightarrow> parameters \<times> ui_event list" where
  "delete_parameter ps param =
     (if length ps \<le> 2 then (ps, [Error (lit ''Cannot delete: minimum 2 parameters required'')])
      else
        case dict_del param ps of
          Inl e \<Rightarrow> (ps, [Uncaught e])
        | Inr ps' \<Rightarrow> (ps', [Success (lit ''Deleted '' @ param), Rerun]))"

text \<open>
  The invariant of the stored dictionary: names are unique and every parameter has at
  least two values, all different.
\<close>

definition parameters_inv :: "parameters \<Rightarrow> bool" where
  "parameters_inv ps \<longleftrightarrow>
     dict_ok ps \<and> (\<forall>p \<in> set ps. 2 \<le> length (snd p) \<and> distinct (snd p))"

definition state_inv :: "session_state \<Rightarrow> bool" where
  "state_inv s \<longleftrightarrow> (case s of None \<Rightarrow> True | Some ps \<Rightarrow> parameters_inv ps)"

section \<open>The test-case table\<close>

text \<open>
  Modelled from the spec: the type of the test cases that the missing module \<open>algo\<close>
  returns (sections 3 and 6). A test case is the tuple of its values, one per parameter
  in the order of the dictionary; the script reads it with \<open>list(test)\<close>.
\<close>

type_synonym test_case = "str list"

text \<open>
  The loop over \<open>enumerate(optimal_tests, 1)\<close> builds one row per test case;
  \<open>new_unique_counts[i-1]\<close> raises \<open>IndexError\<close> when the list of counts is too short.
\<close>

fun table_rows :: "nat \<Rightarrow> test_case list \<Rightarrow> nat list \<Rightarrow> py_error + cell list list" where
  "table_rows i [] new_unique_counts = Inr []"
| "table_rows i (test # tests) new_unique_counts =
     (if i - 1 < length new_unique_counts then
        (case table_rows (Suc i) tests new_unique_counts of
           Inl e \<Rightarrow> Inl e
         | Inr rows \<Rightarrow>
             Inr (([CStr (lit ''Test '' @ str_of_nat i)] @ map CStr test @
                   [CInt (new_unique_counts ! (i - 1))]) # rows))
      else Inl IndexError)"

definition table_data :: "test_case list \<Rightarrow> nat list \<Rightarrow> py_error + cell list list" where
  "table_data optimal_tests new_unique_counts = table_rows 1 optimal_tests new_unique_counts"

definition headers :: "parameters \<Rightarrow> str list" where
  "headers ps = [lit ''Test Case #''] @ dict_keys ps @ [lit ''New Unique Pairs'']"

text \<open>
  \<open>pd.DataFrame(table_data, columns=headers)\<close> on a list of rows: the frame is as wide
  as the longest row, and shorter rows are filled up with missing values. It raises
  \<open>ValueError\<close> when this width is not the number of column names. No rows give an
  empty frame.
\<close>

definition data_frame :: "cell list list \<Rightarrow> str list \<Rightarrow> py_error + cell list list" where
  "data_frame data columns =
     (let width = fold max (map length data) 0
      in if data \<noteq> [] \<and> width \<noteq> length columns then Inl ValueError
         else Inr (map (\<lambda>row. row @ replicate (width - length row) CNone) data))"

text \<open>
  \<open>st.dataframe(df)\<close> displays the frame; the conversion of the frame for display
  raises \<open>ValueError\<close> when two columns have the same name.
\<close>

definition st_dataframe :: "str list \<Rightarrow> cell list list \<Rightarrow> ui_event" where
  "st_dataframe columns df =
     (if distinct columns then Dataframe columns df else Uncaught ValueError)"


section \<open>Pairs\<close>

text \<open>
  Modelled from the spec: the types of the values that the missing module \<open>algo\<close>
  exchanges with the script (section 3). An assignment is a parameter name with one of
  its values; a pair is an unordered pair of assignments, that is the set of its two
  members; the required pairs are a set of pairs, and \<open>len\<close> of it is its cardinality.
\<close>

type_synonym assignment = "str \<times> str"

type_synonym pair = "assignment set"

section \<open>Generating the test cases\<close>

text \<open>
  The button \<open>Generate Test Cases\<close>. The two functions of the module \<open>algo\<close> that the
  script calls are arguments: \<open>find_minimum_test_suite\<close> returns the test cases and the
  required pairs, \<open>count_unique_pairs\<close> returns the covered pairs, the pairs of each
  test case and the number of new pairs of each test case.
\<close>

definition generate_test_cases ::
  "(parameters \<Rightarrow> test_case list \<times> pair set) \<Rightarrow>
   (test_case list \<Rightarrow> pair set \<Rightarrow> parameters \<Rightarrow> pair set \<times> pair set list \<times> nat list) \<Rightarrow>
   parameters \<Rightarrow> ui_event list" where
  "generate_test_cases find_minimum_test_suite count_unique_pairs ps =
     (let invalid_params = map fst (filter (\<lambda>(param, values). length values < 2) ps)
      in if invalid_params \<noteq> [] then
           [Error (lit ''The following parameters need at least 2 values: '' @
                   join (lit '', '') invalid_params)]
         else if length ps < 2 then [Error (lit ''Please add at least 2 parameters'')]
         else
           let (optimal_tests, all_pairs) = find_minimum_test_suite ps
           in if optimal_tests \<noteq> [] then
                let (covered_pairs, test_case_pairs, new_unique_counts) =
                      count_unique_pairs optimal_tests all_pairs ps;
                    shown = [Success (lit ''Test suite generated successfully!''),
                             Metric (lit ''Total Unique Pairs'') (card all_pairs),
                             Metric (lit ''Total Test Cases'') (length optimal_tests)]
                in case table_data optimal_tests new_unique_counts of
                     Inl e \<Rightarrow> shown @ [Uncaught e]
                   | Inr rows \<Rightarrow>
                       (case data_frame rows (headers ps) of
                          Inl e \<Rightarrow> shown @ [Uncaught e]
                        | Inr df \<Rightarrow> shown @ [st_dataframe (headers ps) df])
              else [Error (lit ''No optimal test suite found.'')])"

section \<open>The pairwise core\<close>

text \<open>
  The module \<open>algo\<close>, with \<open>find_minimum_test_suite\<close> and \<open>count_unique_pairs\<close>, is not
  among the sources. Every definition of this section is written from the
  specification (sections 3, 4.1, 4.2, 4.3 and 6), and says so.
\<close>

text \<open>
  Modelled from the spec: the two errors of the core (section 7); the source of the
  core is missing.
\<close>

datatype core_error = PreconditionError | InternalConsistencyError

text \<open>
  Modelled from the spec: a valid parameter set (section 3), the input that the missing
  core expects: at least two parameters with unique names, each with at least two
  values, all different.
\<close>

definition valid_parameters :: "parameters \<Rightarrow> bool" where
  "valid_parameters ps \<longleftrightarrow> 2 \<le> length ps \<and> parameters_inv ps"

text \<open>
  Modelled from the spec: the pairs of two parameters (section 3), part of the missing
  PairEnumerator: every value of the one with every value of the other.
\<close>

definition pairs_between :: "str \<times> str list \<Rightarrow> str \<times> str list \<Rightarrow> pair list" where
  "pairs_between p q =
     concat (map (\<lambda>v. map (\<lambda>w. {(fst p, v), (fst q, w)}) (snd q)) (snd p))"

text \<open>
  Modelled from the spec: the enumeration of the missing PairEnumerator (section 4.1),
  over every two different parameters, the earlier one first.
\<close>

fun all_pairs_list :: "parameters \<Rightarrow> pair list" where
  "all_pairs_list [] = []"
| "all_pairs_list (p # ps) = concat (map (pairs_between p) ps) @ all_pairs_list ps"

text \<open>
  Modelled from the spec: the missing PairEnumerator (section 4.1). It fails when there
  are fewer than two parameters or when a parameter has fewer than two values, and
  otherwise returns the set of the required pairs.
\<close>

definition enumerate_pairs :: "parameters \<Rightarrow> core_error + pair set" where
  "enumerate_pairs ps =
     (if length ps < 2 \<or> (\<exists>p \<in> set ps. length (snd p) < 2) then Inl PreconditionError
      else Inr (set (all_pairs_list ps)))"

text \<open>
  Modelled from the spec: the size of the required pair universe as sections 3 and 8
  write it, for comparison with the missing enumeration: the sum over the index pairs
  \<open>i < j\<close> of the products of the domain sizes.
\<close>

definition pair_count :: "parameters \<Rightarrow> nat" where
  "pair_count ps =
     (\<Sum>j < length ps. \<Sum>i < j. length (snd (ps ! i)) * length (snd (ps ! j)))"

text \<open>
  Modelled from the spec: the pairs inside one total assignment (section 3), used by the
  missing CoverageAnalyzer: every two-element sub-assignment.
\<close>

fun sub_pairs :: "assignment list \<Rightarrow> pair list" where
  "sub_pairs [] = []"
| "sub_pairs (a # as) = map (\<lambda>b. {a, b}) as @ sub_pairs as"

text \<open>
  Modelled from the spec: the pairs that one test case contributes (section 4.3,
  \<open>testCasePairs\<close>), in the missing CoverageAnalyzer. They are derived from the test
  case alone: its values are paired with the parameter names in declaration order.
\<close>

definition pairs_of_test :: "parameters \<Rightarrow> test_case \<Rightarrow> pair set" where
  "pairs_of_test ps test = set (sub_pairs (zip (dict_keys ps) test))"

text \<open>
  Modelled from the spec: the sequential pass of the missing CoverageAnalyzer
  (section 4.3, \<open>newUniqueCounts\<close>). The suite is processed in order; \<open>seen\<close> holds the
  pairs of the earlier test cases, and a test case counts the pairs it adds to them.
  The result is the set of all pairs seen and the list of the counts.
\<close>

fun attribute :: "pair set \<Rightarrow> pair set list \<Rightarrow> pair set \<times> nat list" where
  "attribute seen [] = (seen, [])"
| "attribute seen (tp # tps) =
     (let (covered, counts) = attribute (seen \<union> tp) tps
      in (covered, card (tp - seen) # counts))"

text \<open>
  Modelled from the spec: \<open>AnalyzeCoverage\<close> (sections 4.3 and 6), the missing
  \<open>count_unique_pairs\<close>. It reports what the suite covers, whatever the required pairs
  are: the covered pairs, the pairs of each test case and the count of new pairs of each
  test case.
\<close>

definition analyze_coverage ::
  "test_case list \<Rightarrow> pair set \<Rightarrow> parameters \<Rightarrow> pair set \<times> pair set list \<times> nat list" where
  "analyze_coverage suite required ps =
     (let test_case_pairs = map (pairs_of_test ps) suite;
          (covered, counts) = attribute {} test_case_pairs
      in (covered, test_case_pairs, counts))"

text \<open>
  Modelled from the spec: the three components of the result of the missing
  \<open>AnalyzeCoverage\<close> (section 6), by name.
\<close>

definition covered_pairs :: "pair set \<times> pair set list \<times> nat list \<Rightarrow> pair set" where
  "covered_pairs r = fst r"

definition test_case_pairs :: "pair set \<times> pair set list \<times> nat list \<Rightarrow> pair set list" where
  "test_case_pairs r = fst (snd r)"

definition new_unique_counts :: "pair set \<times> pair set list \<times> nat list \<Rightarrow> nat list" where
  "new_unique_counts r = snd (snd r)"

text \<open>
  Modelled from the spec: the score of a value in the missing GreedySuiteBuilder
  (section 4.2, step 1): the number of uncovered pairs that the value forms with the
  assignments already chosen in this candidate.
\<close>

definition new_pairs :: "pair set \<Rightarrow> assignment list \<Rightarrow> assignment \<Rightarrow> nat" where
  "new_pairs uncovered chosen a = card ((\<lambda>b. {b, a}) ` set chosen \<inter> uncovered)"

text \<open>
  Modelled from the spec: the tie-break of the missing GreedySuiteBuilder (section 4.2,
  step 1): the value with the highest score, the first declared among equals.
\<close>

fun pick_best :: "('a \<Rightarrow> nat) \<Rightarrow> 'a \<Rightarrow> 'a list \<Rightarrow> 'a" where
  "pick_best score best [] = best"
| "pick_best score best (v # vs) =
     pick_best score (if score best < score v then v else best) vs"

text \<open>
  Modelled from the spec: the candidate of the missing GreedySuiteBuilder (section 4.2,
  steps 1 and 2), built parameter by parameter in declaration order, one value each.
\<close>

fun build_candidate :: "pair set \<Rightarrow> assignment list \<Rightarrow> parameters \<Rightarrow> assignment list" where
  "build_candidate uncovered chosen [] = chosen"
| "build_candidate uncovered chosen (p # ps) =
     (case snd p of
        [] \<Rightarrow> build_candidate uncovered chosen ps
      | v # vs \<Rightarrow>
          build_candidate uncovered
            (chosen @ [(fst p, pick_best (\<lambda>w. new_pairs uncovered chosen (fst p, w)) v vs)]) ps)"

text \<open>
  Modelled from the spec: the loop of the missing GreedySuiteBuilder (section 4.2,
  steps 3 and 4). It ends when every required pair is covered; each round appends one
  candidate and marks its pairs as covered. The number of rounds is capped, and running
  out of rounds with pairs still uncovered is the internal-consistency failure. The
  optional minimization pass (step 5) is not part of the model.
\<close>

fun greedy_loop ::
  "nat \<Rightarrow> parameters \<Rightarrow> pair set \<Rightarrow> pair set \<Rightarrow> test_case list \<Rightarrow>
   core_error + test_case list" where
  "greedy_loop rounds ps required covered suite =
     (if required \<subseteq> covered then Inr suite
      else
        case rounds of
          0 \<Rightarrow> Inl InternalConsistencyError
        | Suc n \<Rightarrow>
            let test = map snd (build_candidate (required - covered) [] ps)
            in greedy_loop n ps required (covered \<union> pairs_of_test ps test) (suite @ [test]))"

declare greedy_loop.simps [simp del]

text \<open>
  Modelled from the spec: \<open>EnumerateAndBuild\<close> (section 6), the missing
  \<open>find_minimum_test_suite\<close>: the enumeration, then the loop with as many rounds as
  there are required pairs (section 4.2, step 4).
\<close>

definition enumerate_and_build :: "parameters \<Rightarrow> core_error + test_case list \<times> pair set" where
  "enumerate_and_build ps =
     (case enumerate_pairs ps of
        Inl e \<Rightarrow> Inl e
      | Inr required \<Rightarrow>
          (case greedy_loop (card required) ps required {} [] of
             Inl e \<Rightarrow> Inl e
           | Inr suite \<Rightarrow> Inr (suite, required)))"

section \<open>Properties of the validation\<close>

lemma strip_Nil_iff: "strip s = [] \<longleftrightarrow> (\<forall>c \<in> set s. isspace c)"
proof (cases "dropWhile isspace s")
  case Nil
  have "strip s = []" unfolding strip_def Nil by simp
  moreover from Nil have "\<forall>c \<in> set s. isspace c" by (simp add: dropWhile_eq_Nil_conv)
  ultimately show ?thesis by simp
next
  case (Cons x xs)
  then have nx: "\<not> isspace x" using hd_dropWhile [of isspace s] by auto
  have "x \<in> set s" using Cons set_dropWhileD [of x isspace s] by simp
  with nx have "\<not> (\<forall>c \<in> set s. isspace c)" by blast
  moreover have "strip s \<noteq> []"
    using nx by (auto simp: strip_def Cons dropWhile_eq_Nil_conv)
  ultimately show ?thesis by simp
qed

lemma split_aux_chars:
  "split_aux sep s = (w, ws) \<Longrightarrow> set w \<subseteq> set s \<and> (\<forall>u \<in> set ws. set u \<subseteq> set s)"
proof (induction s arbitrary: w ws)
  case Nil
  then show ?case by simp
next
  case (Cons c cs)
  obtain w' ws' where r: "split_aux sep cs = (w', ws')" by (cases "split_aux sep cs")
  from Cons.IH [OF r] have ih: "set w' \<subseteq> set cs" "\<forall>u \<in> set ws'. set u \<subseteq> set cs" by auto
  show ?case
  proof (cases "c = sep")
    case True
    with Cons.prems r have "w = []" "ws = w' # ws'" by simp_all
    with ih show ?thesis by auto
  next
    case False
    with Cons.prems r have "w = c # w'" "ws = ws'" by simp_all
    with ih show ?thesis by auto
  qed
qed

lemma str_split_chars: "w \<in> set (str_split sep s) \<Longrightarrow> set w \<subseteq> set s"
proof -
  assume a: "w \<in> set (str_split sep s)"
  obtain w' ws' where r: "split_aux sep s = (w', ws')" by (cases "split_aux sep s")
  from split_aux_chars [OF r] a r show ?thesis by (auto simp: str_split_def)
qed

lemma clean_values_blank: "strip values = [] \<Longrightarrow> clean_values values = []"
  unfolding clean_values_def
  by (auto simp: strip_Nil_iff filter_empty_conv dest!: str_split_chars)

lemma remdups_length_iff: "length xs = length (remdups xs) \<longleftrightarrow> distinct xs"
  by (metis distinct_remdups length_remdups_eq remdups_id_iff_distinct)

lemma lit_nonempty: "s \<noteq> [] \<Longrightarrow> lit s \<noteq> []"
  by (simp add: lit_def)

text \<open>
  C5, as the function behaves: \<open>validate_parameter_values\<close> succeeds if and only if the
  comma-separated segments that are not empty after stripping white space number at least
  two and are pairwise different. On success it returns exactly these stripped segments,
  in input order, with an empty message; on failure it returns the empty list and a
  non-empty error message.
\<close>

theorem validate_parameter_values_cleaned:
  "(fst (validate_parameter_values values) \<longleftrightarrow>
      2 \<le> length (clean_values values) \<and> distinct (clean_values values)) \<and>
   (fst (validate_parameter_values values) \<longrightarrow>
      validate_parameter_values values = (True, clean_values values, [])) \<and>
   (\<not> fst (validate_parameter_values values) \<longrightarrow>
      fst (snd (validate_parameter_values values)) = [] \<and>
      snd (snd (validate_parameter_values values)) \<noteq> [])"
proof (cases "strip values = []")
  case True
  then show ?thesis
    by (simp add: validate_parameter_values_def clean_values_blank lit_def)
next
  case False
  then have "values \<noteq> []" by (auto simp: strip_def)
  with False show ?thesis
    by (auto simp: validate_parameter_values_def Let_def remdups_length_iff lit_def)
qed

theorem validate_parameter_values_cleaned_witness:
  "fst (validate_parameter_values (lit ''red, green ,blue'')) \<and>
   validate_parameter_values (lit ''red, green ,blue'') =
     (True, [lit ''red'', lit ''green'', lit ''blue''], []) \<and>
   \<not> fst (validate_parameter_values (lit ''on, on'')) \<and>
   fst (snd (validate_parameter_values (lit ''on, on''))) = [] \<and>
   snd (snd (validate_parameter_values (lit ''on, on''))) \<noteq> []"
  using validate_parameter_values_cleaned [of "lit ''red, green ,blue''"]
    validate_parameter_values_cleaned [of "lit ''on, on''"]
  by (simp add: clean_values_def str_split_def strip_def isspace_def lit_def comma_def)

text \<open>
  C5, as the claim words it, fails: in \<open>x, ,y\<close> the middle segment is empty after
  stripping, so the values are not all non-empty, yet the validation succeeds and
  returns \<open>x\<close> and \<open>y\<close> only.
\<close>

theorem validate_parameter_values_counterexample:
  "validate_parameter_values (lit ''x, ,y'') = (True, [lit ''x'', lit ''y''], lit '''') \<and>
   map strip (str_split comma (lit ''x, ,y'')) = [lit ''x'', lit '''', lit ''y''] \<and>
   \<not> values_as_specified (lit ''x, ,y'')"
  by (simp add: validate_parameter_values_def clean_values_def str_split_def strip_def
      isspace_def lit_def comma_def values_as_specified_def)

text \<open>
  C10: segments that are empty after stripping are dropped without an error. For the
  input \<open>a,,b,\<close> the validation succeeds and returns \<open>a\<close> and \<open>b\<close>.
\<close>

theorem validate_parameter_values_drops_empty:
  "validate_parameter_values (lit ''a,,b,'') = (True, [lit ''a'', lit ''b''], lit '''')"
  by (simp add: validate_parameter_values_def clean_values_def str_split_def strip_def
      isspace_def lit_def comma_def)

text \<open>
  C6: \<open>validate_parameter_name\<close> fails exactly when the name is empty, or consists of
  white space only, or its stripped form is a key of the dictionary; when it succeeds
  the error message is empty.
\<close>

theorem validate_parameter_name_fails_iff:
  "(fst (validate_parameter_name ps name) \<longleftrightarrow>
      \<not> (name = [] \<or> (\<forall>c \<in> set name. isspace c) \<or> strip name \<in> set (dict_keys ps))) \<and>
   (fst (validate_parameter_name ps name) \<longrightarrow> snd (validate_parameter_name ps name) = [])"
  by (auto simp: validate_parameter_name_def strip_Nil_iff dict_mem_def lit_def)

theorem validate_parameter_name_fails_iff_witness:
  "fst (validate_parameter_name default_parameters (lit '' Size '')) \<and>
   snd (validate_parameter_name default_parameters (lit '' Size '')) = [] \<and>
   \<not> fst (validate_parameter_name default_parameters (lit '' Fonts '')) \<and>
   \<not> fst (validate_parameter_name default_parameters (lit ''  ''))"
  using validate_parameter_name_fails_iff [of default_parameters "lit '' Size ''"]
    validate_parameter_name_fails_iff [of default_parameters "lit '' Fonts ''"]
    validate_parameter_name_fails_iff [of default_parameters "lit ''  ''"]
  by (simp add: default_parameters_def dict_keys_def strip_def isspace_def lit_def)

section \<open>Properties of the parameter-set operations\<close>

lemma validate_parameter_values_ok:
  "fst (validate_parameter_values values) \<Longrightarrow>
     2 \<le> length (fst (snd (validate_parameter_values values))) \<and>
     distinct (fst (snd (validate_parameter_values values)))"
  by (auto simp: validate_parameter_values_def Let_def remdups_length_iff split: if_splits)

lemma dict_set_keys:
  "map fst (dict_set k v d) = (if k \<in> set (map fst d) then map fst d else map fst d @ [k])"
  by (induction d) auto

lemma dict_set_entries: "set (dict_set k v d) \<subseteq> insert (k, v) (set d)"
  by (induction d) auto

lemma dict_set_inv:
  assumes "parameters_inv ps" "2 \<le> length vl" "distinct vl"
  shows "parameters_inv (dict_set k vl ps)"
proof -
  from assms(1) have "distinct (map fst (dict_set k vl ps))"
    by (simp add: parameters_inv_def dict_ok_def dict_set_keys)
  moreover have "\<forall>p \<in> set (dict_set k vl ps). 2 \<le> length (snd p) \<and> distinct (snd p)"
    using assms dict_set_entries [of k vl ps] by (auto simp: parameters_inv_def)
  ultimately show ?thesis by (simp add: parameters_inv_def dict_ok_def)
qed

lemma add_parameter_inv: "parameters_inv ps \<Longrightarrow> parameters_inv (fst (add_parameter ps n v))"
  using validate_parameter_values_ok [of v]
  by (auto simp: add_parameter_def Let_def split: prod.splits intro!: dict_set_inv)

lemma update_parameter_inv:
  "parameters_inv ps \<Longrightarrow> parameters_inv (fst (update_parameter ps p v))"
  using validate_parameter_values_ok [of v]
  by (auto simp: update_parameter_def Let_def split: prod.splits intro!: dict_set_inv)

lemma default_parameters_inv: "parameters_inv default_parameters"
  by (simp add: parameters_inv_def dict_ok_def default_parameters_def lit_def)

lemma filter_key_length:
  "distinct (map fst d) \<Longrightarrow> length d \<le> Suc (length (filter (\<lambda>p. fst p \<noteq> k) d))"
proof (induction d)
  case Nil
  then show ?case by simp
next
  case (Cons p d)
  show ?case
  proof (cases "fst p = k")
    case True
    with Cons.prems have "k \<notin> fst ` set d" by simp
    then have "\<forall>q \<in> set d. fst q \<noteq> k" by (auto simp: image_iff)
    then have "filter (\<lambda>p. fst p \<noteq> k) d = d" by (simp add: filter_id_conv)
    with True show ?thesis by simp
  next
    case False
    with Cons show ?thesis by simp
  qed
qed

text \<open>
  C7: initialization, adding a parameter and updating the values of a parameter keep
  the invariant of the dictionary: names are unique, and every stored value list has at
  least two values, pairwise different. Initialization starts from a state without
  dictionary or with a dictionary that satisfies the invariant, and always leaves a
  dictionary that satisfies it.
\<close>

theorem parameter_operations_preserve_inv:
  "(state_inv s \<longrightarrow> (\<exists>ps. initialize_session_state s = Some ps \<and> parameters_inv ps)) \<and>
   (parameters_inv ps \<longrightarrow>
      parameters_inv (fst (add_parameter ps new_param new_values)) \<and>
      parameters_inv (fst (update_parameter ps param values)))"
  by (auto simp: state_inv_def initialize_session_state_def default_parameters_inv
      add_parameter_inv update_parameter_inv split: option.splits)

theorem parameter_operations_preserve_inv_witness:
  "state_inv None \<and> initialize_session_state None = Some default_parameters \<and>
   parameters_inv default_parameters \<and>
   fst (add_parameter default_parameters (lit '' Theme '') (lit ''dark, light'')) =
     default_parameters @ [(lit ''Theme'', [lit ''dark'', lit ''light''])] \<and>
   parameters_inv (default_parameters @ [(lit ''Theme'', [lit ''dark'', lit ''light''])]) \<and>
   parameters_inv (fst (update_parameter default_parameters (lit ''Fonts'') (lit ''Serif, Sans'')))"
proof -
  have a: "fst (add_parameter default_parameters (lit '' Theme '') (lit ''dark, light'')) =
     default_parameters @ [(lit ''Theme'', [lit ''dark'', lit ''light''])]"
    by (simp add: add_parameter_def validate_parameter_name_def validate_parameter_values_def
        clean_values_def str_split_def strip_def isspace_def comma_def dict_mem_def dict_keys_def
        default_parameters_def lit_def)
  have i: "state_inv None" by (simp add: state_inv_def)
  have d: "parameters_inv default_parameters"
    by (simp add: parameters_inv_def dict_ok_def default_parameters_def lit_def)
  from parameter_operations_preserve_inv [of None default_parameters "lit '' Theme ''"
      "lit ''dark, light''" "lit ''Fonts''" "lit ''Serif, Sans''"] a i d
  show ?thesis
    by (simp add: initialize_session_state_def)
qed

text \<open>
  C9: with two parameters or fewer, deleting is refused: an error is shown and the
  dictionary is unchanged. Hence a dictionary with at least two parameters still has at
  least two after the delete button, whatever parameter it names.
\<close>

theorem delete_parameter_keeps_two:
  "(length ps \<le> 2 \<longrightarrow>
      delete_parameter ps param =
        (ps, [Error (lit ''Cannot delete: minimum 2 parameters required'')])) \<and>
   (dict_ok ps \<and> 2 \<le> length ps \<longrightarrow> 2 \<le> length (fst (delete_parameter ps param)))"
  using filter_key_length [of ps param]
  by (auto simp: delete_parameter_def dict_del_def dict_ok_def split: sum.splits)

theorem delete_parameter_keeps_two_witness:
  "delete_parameter [(lit ''A'', [lit ''a1'', lit ''a2'']), (lit ''B'', [lit ''b1'', lit ''b2''])]
       (lit ''A'') =
     ([(lit ''A'', [lit ''a1'', lit ''a2'']), (lit ''B'', [lit ''b1'', lit ''b2''])],
      [Error (lit ''Cannot delete: minimum 2 parameters required'')]) \<and>
   dict_ok default_parameters \<and> 2 \<le> length default_parameters \<and>
   length (fst (delete_parameter default_parameters (lit ''Fonts''))) = 4"
  using delete_parameter_keeps_two
      [of "[(lit ''A'', [lit ''a1'', lit ''a2'']), (lit ''B'', [lit ''b1'', lit ''b2''])]" "lit ''A''"]
    delete_parameter_keeps_two [of default_parameters "lit ''Fonts''"]
  by (simp add: default_parameters_def dict_ok_def delete_parameter_def dict_del_def
      dict_mem_def dict_keys_def lit_def)

section \<open>Properties of the generation flow\<close>

text \<open>
  C2: when the dictionary has fewer than two parameters, or a parameter with fewer than
  two values, the generate button shows one error message and nothing else: no success
  message, no metric and no table. The two functions of \<open>algo\<close> are arbitrary here, and
  the outcome is the same whatever they are: they are not called.
\<close>

theorem generate_rejects_invalid:
  "length ps < 2 \<or> (\<exists>p \<in> set ps. length (snd p) < 2) \<Longrightarrow>
   generate_test_cases find_minimum_test_suite count_unique_pairs ps =
     [Error (if \<exists>p \<in> set ps. length (snd p) < 2
             then lit ''The following parameters need at least 2 values: '' @
                  join (lit '', '') (map fst (filter (\<lambda>p. length (snd p) < 2) ps))
             else lit ''Please add at least 2 parameters'')] \<and>
   generate_test_cases find_minimum_test_suite count_unique_pairs ps =
     generate_test_cases find_other count_other ps"
proof -
  assume a: "length ps < 2 \<or> (\<exists>p \<in> set ps. length (snd p) < 2)"
  have f: "(\<lambda>(param, values). length values < 2) = (\<lambda>p :: str \<times> str list. length (snd p) < 2)"
    by auto
  have "generate_test_cases f c ps =
     [Error (if \<exists>p \<in> set ps. length (snd p) < 2
             then lit ''The following parameters need at least 2 values: '' @
                  join (lit '', '') (map fst (filter (\<lambda>p. length (snd p) < 2) ps))
             else lit ''Please add at least 2 parameters'')]" for f c
    using a unfolding generate_test_cases_def f by (auto simp: Let_def filter_empty_conv)
  then show ?thesis by simp
qed

theorem generate_rejects_invalid_witness:
  "generate_test_cases (\<lambda>ps. ([[lit ''a1'']], {})) (\<lambda>suite required ps. ({}, [], [0]))
       [(lit ''A'', [lit ''a1'', lit ''a2''])] =
     [Error (lit ''Please add at least 2 parameters'')] \<and>
   generate_test_cases (\<lambda>ps. ([[lit ''a1'']], {})) (\<lambda>suite required ps. ({}, [], [0]))
       [(lit ''A'', [lit ''a1'']), (lit ''B'', [lit ''b1'', lit ''b2'']), (lit ''C'', [])] =
     [Error (lit ''The following parameters need at least 2 values: A, C'')]"
  using generate_rejects_invalid [of "[(lit ''A'', [lit ''a1'', lit ''a2''])]"
      "\<lambda>ps. ([[lit ''a1'']], {})" "\<lambda>suite required ps. ({}, [], [0])"]
    generate_rejects_invalid
      [of "[(lit ''A'', [lit ''a1'']), (lit ''B'', [lit ''b1'', lit ''b2'']), (lit ''C'', [])]"
      "\<lambda>ps. ([[lit ''a1'']], {})" "\<lambda>suite required ps. ({}, [], [0])"]
  by (simp add: lit_def)







text \<open>
  No table is displayed when two column names are equal or when the longest row is not
  as wide as the header. A parameter may be named like one of the two fixed columns,
  since \<open>validate_parameter_name\<close> accepts the name; the display of the frame then
  raises. A test case with too few or too many values makes the construction of the
  frame raise.
\<close>

lemma generate_duplicate_header:
  "validate_parameter_name default_parameters (lit ''New Unique Pairs'') = (True, lit '''') \<and>
   generate_test_cases (\<lambda>ps. ([[lit ''x'', lit ''b1'']], {}))
       (\<lambda>suite required ps. ({}, [], [1]))
       [(lit ''New Unique Pairs'', [lit ''x'', lit ''y'']), (lit ''B'', [lit ''b1'', lit ''b2''])] =
     [Success (lit ''Test suite generated successfully!''),
      Metric (lit ''Total Unique Pairs'') 0,
      Metric (lit ''Total Test Cases'') 1,
      Uncaught ValueError]"
  by (simp add: generate_test_cases_def table_data_def data_frame_def st_dataframe_def
      headers_def dict_keys_def validate_parameter_name_def dict_mem_def default_parameters_def
      strip_def isspace_def str_of_nat.simps lit_def)

lemma generate_wrong_width:
  "generate_test_cases (\<lambda>ps. ([[lit ''a1'']], {}))
       (\<lambda>suite required ps. ({}, [], [1]))
       [(lit ''A'', [lit ''a1'', lit ''a2'']), (lit ''B'', [lit ''b1'', lit ''b2''])] =
     [Success (lit ''Test suite generated successfully!''),
      Metric (lit ''Total Unique Pairs'') 0,
      Metric (lit ''Total Test Cases'') 1,
      Uncaught ValueError]"
  by (simp add: generate_test_cases_def table_data_def data_frame_def st_dataframe_def
      headers_def dict_keys_def str_of_nat.simps lit_def)

section \<open>Properties of the coverage analysis\<close>

lemma attribute_covered: "fst (attribute seen tps) = seen \<union> \<Union>(set tps)"
  by (induction tps arbitrary: seen) (auto simp: case_prod_beta)

lemma attribute_length: "length (snd (attribute seen tps)) = length tps"
  by (induction tps arbitrary: seen) (auto simp: case_prod_beta)

lemma attribute_sum:
  "finite seen \<Longrightarrow> \<forall>tp \<in> set tps. finite tp \<Longrightarrow>
   card (fst (attribute seen tps)) = card seen + sum_list (snd (attribute seen tps))"
proof (induction tps arbitrary: seen)
  case Nil
  then show ?case by simp
next
  case (Cons tp tps)
  from Cons.prems have fin: "finite (seen \<union> tp)" "\<forall>t \<in> set tps. finite t" by auto
  have "card (seen \<union> tp) = card seen + card (tp - seen)"
  proof -
    have "seen \<union> tp = seen \<union> (tp - seen)" by auto
    moreover have "card (seen \<union> (tp - seen)) = card seen + card (tp - seen)"
      using Cons.prems by (intro card_Un_disjoint) auto
    ultimately show ?thesis by simp
  qed
  with Cons.IH [OF fin] show ?case by (simp add: case_prod_beta)
qed

lemma attribute_nth:
  "i < length tps \<Longrightarrow>
   snd (attribute seen tps) ! i = card (tps ! i - (seen \<union> \<Union>(set (take i tps))))"
proof (induction tps arbitrary: seen i)
  case Nil
  then show ?case by simp
next
  case (Cons tp tps)
  show ?case
  proof (cases i)
    case 0
    then show ?thesis by (simp add: case_prod_beta)
  next
    case (Suc k)
    with Cons.prems have "k < length tps" by simp
    from Cons.IH [OF this, of "seen \<union> tp"] Suc show ?thesis
      by (simp add: case_prod_beta Un_assoc)
  qed
qed

lemma finite_pairs_of_test: "finite (pairs_of_test ps t)"
  by (simp add: pairs_of_test_def)

text \<open>
  C3: for every suite and every required pair universe, the new-pair counts of the
  coverage analysis add up to the number of covered pairs. There is one count per test
  case, and the count of a test case is the number of its pairs that no earlier test
  case of the suite has: every covered pair is counted once, at the first test case
  that covers it.
\<close>

theorem new_unique_counts_sum:
  "sum_list (new_unique_counts (analyze_coverage suite required ps)) =
     card (covered_pairs (analyze_coverage suite required ps)) \<and>
   covered_pairs (analyze_coverage suite required ps) = (\<Union>t \<in> set suite. pairs_of_test ps t) \<and>
   test_case_pairs (analyze_coverage suite required ps) = map (pairs_of_test ps) suite \<and>
   length (new_unique_counts (analyze_coverage suite required ps)) = length suite \<and>
   (\<forall>i < length suite.
      new_unique_counts (analyze_coverage suite required ps) ! i =
        card (pairs_of_test ps (suite ! i) - (\<Union>t \<in> set (take i suite). pairs_of_test ps t)))"
proof -
  let ?tps = "map (pairs_of_test ps) suite"
  have r: "analyze_coverage suite required ps =
      (fst (attribute {} ?tps), ?tps, snd (attribute {} ?tps))"
    by (simp add: analyze_coverage_def Let_def case_prod_beta)
  have s: "card (fst (attribute {} ?tps)) = card ({} :: pair set) + sum_list (snd (attribute {} ?tps))"
    by (rule attribute_sum) (auto simp: finite_pairs_of_test)
  have n: "\<forall>i < length suite. snd (attribute {} ?tps) ! i =
        card (pairs_of_test ps (suite ! i) - (\<Union>t \<in> set (take i suite). pairs_of_test ps t))"
    using attribute_nth [of _ ?tps "{}"] by (simp add: take_map)
  show ?thesis
    unfolding r covered_pairs_def new_unique_counts_def test_case_pairs_def
    using s n by (simp add: attribute_covered attribute_length)
qed

theorem new_unique_counts_sum_witness:
  "new_unique_counts (analyze_coverage
      [[lit ''a1'', lit ''b1'', lit ''c1''], [lit ''a1'', lit ''b1'', lit ''c2'']] {}
      [(lit ''A'', [lit ''a1'', lit ''a2'']), (lit ''B'', [lit ''b1'', lit ''b2'']),
       (lit ''C'', [lit ''c1'', lit ''c2''])]) = [3, 2] \<and>
   card (covered_pairs (analyze_coverage
      [[lit ''a1'', lit ''b1'', lit ''c1''], [lit ''a1'', lit ''b1'', lit ''c2'']] {}
      [(lit ''A'', [lit ''a1'', lit ''a2'']), (lit ''B'', [lit ''b1'', lit ''b2'']),
       (lit ''C'', [lit ''c1'', lit ''c2''])])) = 5 \<and>
   (1 :: nat) < length [[lit ''a1'', lit ''b1'', lit ''c1''], [lit ''a1'', lit ''b1'', lit ''c2'']] \<and>
   card (pairs_of_test [(lit ''A'', [lit ''a1'', lit ''a2'']), (lit ''B'', [lit ''b1'', lit ''b2'']),
       (lit ''C'', [lit ''c1'', lit ''c2''])] [lit ''a1'', lit ''b1'', lit ''c2''] -
         pairs_of_test [(lit ''A'', [lit ''a1'', lit ''a2'']), (lit ''B'', [lit ''b1'', lit ''b2'']),
       (lit ''C'', [lit ''c1'', lit ''c2''])] [lit ''a1'', lit ''b1'', lit ''c1'']) = 2"
proof -
  let ?ps = "[(lit ''A'', [lit ''a1'', lit ''a2'']), (lit ''B'', [lit ''b1'', lit ''b2'']),
       (lit ''C'', [lit ''c1'', lit ''c2''])]"
  let ?su = "[[lit ''a1'', lit ''b1'', lit ''c1''], [lit ''a1'', lit ''b1'', lit ''c2'']]"
  have e: "new_unique_counts (analyze_coverage ?su {} ?ps) = [3, 2]"
    by (simp add: new_unique_counts_def analyze_coverage_def pairs_of_test_def dict_keys_def
        lit_def doubleton_eq_iff card_insert_if)
  have l: "(1 :: nat) < length ?su" by simp
  note t = new_unique_counts_sum [of ?su "{}" ?ps]
  from t have "sum_list (new_unique_counts (analyze_coverage ?su {} ?ps)) =
     card (covered_pairs (analyze_coverage ?su {} ?ps))" by blast
  with e have c: "card (covered_pairs (analyze_coverage ?su {} ?ps)) = 5" by simp
  from t l have "new_unique_counts (analyze_coverage ?su {} ?ps) ! 1 =
        card (pairs_of_test ?ps (?su ! 1) - (\<Union>t \<in> set (take 1 ?su). pairs_of_test ?ps t))"
    by blast
  with e have "card (pairs_of_test ?ps (?su ! 1) - (\<Union>t \<in> set (take 1 ?su). pairs_of_test ?ps t)) = 2"
    by simp
  then have n: "card (pairs_of_test ?ps [lit ''a1'', lit ''b1'', lit ''c2''] -
      pairs_of_test ?ps [lit ''a1'', lit ''b1'', lit ''c1'']) = 2"
    by simp
  from e c l n show ?thesis by blast
qed

section \<open>Properties of the pair enumeration\<close>

lemma pairs_between_product:
  "pairs_between p q = map (\<lambda>(v, w). {(fst p, v), (fst q, w)}) (List.product (snd p) (snd q))"
  by (simp add: pairs_between_def List.product_concat_map map_concat comp_def)

lemma length_pairs_between: "length (pairs_between p q) = length (snd p) * length (snd q)"
  by (simp add: pairs_between_product)

lemma length_pairs_with_rest:
  "length (concat (map (pairs_between p) ps)) = length (snd p) * (\<Sum>q\<leftarrow>ps. length (snd q))"
  by (induction ps) (simp_all add: length_pairs_between distrib_left)

lemma pair_count_Cons:
  "pair_count (p # ps) = length (snd p) * (\<Sum>q\<leftarrow>ps. length (snd q)) + pair_count ps"
proof -
  let ?f = "\<lambda>i j. length (snd ((p # ps) ! i)) * length (snd ((p # ps) ! j))"
  let ?g = "\<lambda>i j. length (snd (ps ! i)) * length (snd (ps ! j))"
  have "pair_count (p # ps) = (\<Sum>j < Suc (length ps). \<Sum>i < j. ?f i j)"
    by (simp only: pair_count_def length_Cons)
  also have "\<dots> = (\<Sum>i < 0. ?f i 0) + (\<Sum>j < length ps. \<Sum>i < Suc j. ?f i (Suc j))"
    by (rule sum.lessThan_Suc_shift)
  also have "\<dots> = (\<Sum>j < length ps. \<Sum>i < Suc j. ?f i (Suc j))"
    by simp
  also have "\<dots> = (\<Sum>j < length ps. ?f 0 (Suc j) + (\<Sum>i < j. ?f (Suc i) (Suc j)))"
    by (simp only: sum.lessThan_Suc_shift)
  also have "\<dots> = (\<Sum>j < length ps. length (snd p) * length (snd (ps ! j)) + (\<Sum>i < j. ?g i j))"
    by simp
  also have "\<dots> = length (snd p) * (\<Sum>j < length ps. length (snd (ps ! j))) + pair_count ps"
    by (simp add: pair_count_def sum.distrib sum_distrib_left del: sum.lessThan_Suc)
  also have "(\<Sum>j < length ps. length (snd (ps ! j))) = (\<Sum>q\<leftarrow>ps. length (snd q))"
    using sum_list_sum_nth [of "map (\<lambda>q. length (snd q)) ps"]
    by (simp add: atLeast0LessThan)
  finally show ?thesis .
qed

lemma length_all_pairs_list: "length (all_pairs_list ps) = pair_count ps"
proof (induction ps)
  case Nil
  then show ?case by (simp add: pair_count_def)
next
  case (Cons p ps)
  then show ?case by (simp add: length_pairs_with_rest pair_count_Cons)
qed

lemma pairs_between_names: "x \<in> set (pairs_between p q) \<Longrightarrow> fst ` x = {fst p, fst q}"
  by (auto simp: pairs_between_def)

lemma all_pairs_list_names: "x \<in> set (all_pairs_list ps) \<Longrightarrow> fst ` x \<subseteq> fst ` set ps"
proof (induction ps)
  case Nil
  then show ?case by simp
next
  case (Cons p ps)
  from Cons.prems consider
    (a) q where "q \<in> set ps" "x \<in> set (pairs_between p q)" | (b) "x \<in> set (all_pairs_list ps)"
    by auto
  then show ?case
  proof cases
    case a
    from pairs_between_names [OF a(2)] a(1) show ?thesis by auto
  next
    case b
    with Cons.IH show ?thesis by auto
  qed
qed

lemma distinct_pairs_between:
  assumes "fst p \<noteq> fst q" "distinct (snd p)" "distinct (snd q)"
  shows "distinct (pairs_between p q)"
proof -
  have "inj_on (\<lambda>(v, w). {(fst p, v), (fst q, w)}) (set (List.product (snd p) (snd q)))"
    using assms(1) by (auto simp: inj_on_def doubleton_eq_iff)
  with assms show ?thesis
    by (simp add: pairs_between_product distinct_map distinct_product)
qed

lemma distinct_pairs_with_rest:
  assumes "fst p \<notin> fst ` set qs" "distinct (map fst qs)" "distinct (snd p)"
    "\<forall>q \<in> set qs. distinct (snd q)"
  shows "distinct (concat (map (pairs_between p) qs))"
  using assms
proof (induction qs)
  case Nil
  then show ?case by simp
next
  case (Cons q qs)
  have d1: "distinct (pairs_between p q)"
    using Cons.prems by (intro distinct_pairs_between) auto
  have d2: "distinct (concat (map (pairs_between p) qs))"
    using Cons.prems by (intro Cons.IH) auto
  have "set (pairs_between p q) \<inter> set (concat (map (pairs_between p) qs)) = {}"
  proof (rule ccontr)
    assume "\<not> ?thesis"
    then obtain x q' where x: "x \<in> set (pairs_between p q)" "q' \<in> set qs"
      "x \<in> set (pairs_between p q')" by auto
    from pairs_between_names [OF x(1)] pairs_between_names [OF x(3)]
    have "{fst p, fst q} = {fst p, fst q'}" by simp
    moreover from Cons.prems x(2) have "fst q \<noteq> fst q'" "fst q \<noteq> fst p" by auto
    ultimately show False by (auto simp: doubleton_eq_iff)
  qed
  with d1 d2 show ?case by simp
qed

lemma distinct_all_pairs_list:
  "distinct (map fst ps) \<Longrightarrow> \<forall>p \<in> set ps. distinct (snd p) \<Longrightarrow> distinct (all_pairs_list ps)"
proof (induction ps)
  case Nil
  then show ?case by simp
next
  case (Cons p ps)
  have d1: "distinct (concat (map (pairs_between p) ps))"
    using Cons.prems by (intro distinct_pairs_with_rest) auto
  have d2: "distinct (all_pairs_list ps)" using Cons by simp
  have "set (concat (map (pairs_between p) ps)) \<inter> set (all_pairs_list ps) = {}"
  proof (rule ccontr)
    assume "\<not> ?thesis"
    then obtain x q where x: "q \<in> set ps" "x \<in> set (pairs_between p q)"
      "x \<in> set (all_pairs_list ps)" by auto
    from pairs_between_names [OF x(2)] all_pairs_list_names [OF x(3)]
    have "fst p \<in> fst ` set ps" by auto
    with Cons.prems show False by simp
  qed
  with d1 d2 show ?case by simp
qed

text \<open>
  C4: for a valid parameter set the enumeration succeeds, and the required pair
  universe has exactly as many elements as the sum, over the index pairs \<open>i < j\<close>, of
  the products of the two domain sizes. The enumeration lists no pair twice, a pair
  being the set of its two assignments, so that the order of its members is immaterial.
\<close>

theorem required_pairs_count:
  "valid_parameters ps \<Longrightarrow>
   enumerate_pairs ps = Inr (set (all_pairs_list ps)) \<and>
   distinct (all_pairs_list ps) \<and>
   length (all_pairs_list ps) = pair_count ps \<and>
   card (set (all_pairs_list ps)) = pair_count ps"
proof -
  assume v: "valid_parameters ps"
  then have d: "distinct (all_pairs_list ps)"
    by (intro distinct_all_pairs_list) (auto simp: valid_parameters_def parameters_inv_def dict_ok_def)
  from v have "enumerate_pairs ps = Inr (set (all_pairs_list ps))"
    by (auto simp: enumerate_pairs_def valid_parameters_def parameters_inv_def)
  with d show ?thesis
    by (simp add: length_all_pairs_list distinct_card)
qed

theorem required_pairs_count_witness:
  "valid_parameters [(lit ''Browser'', [lit ''Chrome'', lit ''Firefox'']),
       (lit ''OS'', [lit ''Windows'', lit ''Mac'']), (lit ''Language'', [lit ''EN'', lit ''FR''])] \<and>
   enumerate_pairs [(lit ''Browser'', [lit ''Chrome'', lit ''Firefox'']),
       (lit ''OS'', [lit ''Windows'', lit ''Mac'']), (lit ''Language'', [lit ''EN'', lit ''FR''])] =
     Inr (set (all_pairs_list [(lit ''Browser'', [lit ''Chrome'', lit ''Firefox'']),
       (lit ''OS'', [lit ''Windows'', lit ''Mac'']), (lit ''Language'', [lit ''EN'', lit ''FR''])])) \<and>
   card (set (all_pairs_list [(lit ''Browser'', [lit ''Chrome'', lit ''Firefox'']),
       (lit ''OS'', [lit ''Windows'', lit ''Mac'']), (lit ''Language'', [lit ''EN'', lit ''FR''])])) = 12"
proof -
  let ?ps = "[(lit ''Browser'', [lit ''Chrome'', lit ''Firefox'']),
       (lit ''OS'', [lit ''Windows'', lit ''Mac'']), (lit ''Language'', [lit ''EN'', lit ''FR''])]"
  have v: "valid_parameters ?ps"
    by (simp add: valid_parameters_def parameters_inv_def dict_ok_def lit_def)
  have c: "pair_count ?ps = 12"
    by (simp add: pair_count_def lessThan_Suc numeral_3_eq_3)
  from required_pairs_count [OF v] v c show ?thesis by simp
qed

section \<open>Properties of the greedy builder\<close>

text \<open>
  When the loop returns a suite, every required pair is among the pairs of its test
  cases: the covered set it tests is the union of the pairs of the suite built so far.
\<close>

lemma greedy_loop_covers:
  "greedy_loop n ps required covered suite = Inr s \<Longrightarrow>
   covered = (\<Union>t \<in> set suite. pairs_of_test ps t) \<Longrightarrow>
   required \<subseteq> (\<Union>t \<in> set s. pairs_of_test ps t)"
proof (induction n arbitrary: covered suite)
  case 0
  then show ?case by (auto simp: greedy_loop.simps [of 0] split: if_splits)
next
  case (Suc n)
  show ?case
  proof (cases "required \<subseteq> covered")
    case True
    with Suc.prems show ?thesis by (simp add: greedy_loop.simps [of "Suc n"])
  next
    case False
    let ?test = "map snd (build_candidate (required - covered) [] ps)"
    from False Suc.prems(1)
    have "greedy_loop n ps required (covered \<union> pairs_of_test ps ?test) (suite @ [?test]) = Inr s"
      by (simp add: greedy_loop.simps [of "Suc n"] Let_def)
    moreover have "covered \<union> pairs_of_test ps ?test = (\<Union>t \<in> set (suite @ [?test]). pairs_of_test ps t)"
      using Suc.prems(2) by auto
    ultimately show ?thesis by (rule Suc.IH)
  qed
qed

lemma build_success_complete:
  assumes "enumerate_and_build ps = Inr (suite, required)"
  shows "required \<subseteq> covered_pairs (analyze_coverage suite required ps)"
proof -
  from assms obtain n where "greedy_loop n ps required {} [] = Inr suite"
    by (auto simp: enumerate_and_build_def split: sum.splits)
  then have "required \<subseteq> (\<Union>t \<in> set suite. pairs_of_test ps t)"
    by (rule greedy_loop_covers) simp
  then show ?thesis
    by (simp add: analyze_coverage_def covered_pairs_def Let_def case_prod_beta
        attribute_covered)
qed

text \<open>
  The loop as the specification words it does not return a suite for any valid
  parameter set. The first parameter of a candidate has no earlier choice to form a
  pair with, so all its values score zero and the first declared one is taken in every
  round; a pair with the second value of the first parameter is never covered, and the
  cap on the rounds ends the run with the internal-consistency failure.
\<close>

lemma pick_best_no_score: "\<forall>w. score w = 0 \<Longrightarrow> pick_best score best vs = best"
  by (induction vs arbitrary: best) simp_all

lemma build_candidate_shape:
  "\<forall>p \<in> set ps. snd p \<noteq> [] \<Longrightarrow>
   \<exists>more. build_candidate uncovered chosen ps = chosen @ more \<and> map fst more = map fst ps"
proof (induction ps arbitrary: chosen)
  case Nil
  then show ?case by simp
next
  case (Cons p ps)
  then obtain v vs where d: "snd p = v # vs" by (cases "snd p") auto
  let ?a = "(fst p, pick_best (\<lambda>w. new_pairs uncovered chosen (fst p, w)) v vs)"
  from Cons.prems have "\<forall>p \<in> set ps. snd p \<noteq> []" by simp
  from Cons.IH [OF this, of "chosen @ [?a]"]
  obtain more where "build_candidate uncovered (chosen @ [?a]) ps = (chosen @ [?a]) @ more"
    "map fst more = map fst ps" by blast
  with d have "build_candidate uncovered chosen (p # ps) = chosen @ (?a # more) \<and>
    map fst (?a # more) = map fst (p # ps)" by simp
  then show ?case by blast
qed

lemma first_value_always_first:
  assumes "snd p = v # vs" "\<forall>q \<in> set ps. snd q \<noteq> []"
  shows "\<exists>more. build_candidate uncovered [] (p # ps) = (fst p, v) # more \<and>
     map fst more = map fst ps"
proof -
  have "pick_best (\<lambda>w. new_pairs uncovered [] (fst p, w)) v vs = v"
    by (rule pick_best_no_score) (simp add: new_pairs_def)
  with assms(1) have "build_candidate uncovered [] (p # ps) =
      build_candidate uncovered [(fst p, v)] ps" by simp
  with build_candidate_shape [OF assms(2), of uncovered "[(fst p, v)]"] show ?thesis by auto
qed

lemma sub_pairs_members:
  "x \<in> set (sub_pairs as) \<Longrightarrow> \<exists>a \<in> set as. \<exists>b \<in> set as. x = {a, b}"
  by (induction as) auto

lemma greedy_loop_stuck:
  assumes "x \<in> required"
    and "\<And>uncovered. x \<notin> pairs_of_test ps (map snd (build_candidate uncovered [] ps))"
  shows "x \<notin> covered \<Longrightarrow> greedy_loop n ps required covered suite = Inl InternalConsistencyError"
proof (induction n arbitrary: covered suite)
  case 0
  with assms(1) show ?case by (auto simp: greedy_loop.simps [of 0])
next
  case (Suc n)
  let ?test = "map snd (build_candidate (required - covered) [] ps)"
  from Suc.prems assms(1) have ns: "\<not> required \<subseteq> covered" by auto
  from Suc.prems assms(2) have "x \<notin> covered \<union> pairs_of_test ps ?test" by simp
  from Suc.IH [OF this] ns show ?case
    by (simp add: greedy_loop.simps [of "Suc n"] Let_def)
qed

lemma greedy_never_succeeds:
  assumes "valid_parameters ps"
  shows "enumerate_and_build ps = Inl InternalConsistencyError"
proof -
  from assms have len: "2 \<le> length ps" and names: "distinct (map fst ps)"
    and doms: "\<forall>p \<in> set ps. 2 \<le> length (snd p) \<and> distinct (snd p)"
    by (auto simp: valid_parameters_def parameters_inv_def dict_ok_def)
  from len obtain p q rest where ps: "ps = p # q # rest"
    by (cases ps; cases "tl ps") auto
  from doms ps obtain v v' vs where dp: "snd p = v # v' # vs"
    by (cases "snd p"; cases "tl (snd p)") auto
  from doms ps obtain w ws where dq: "snd q = w # ws"
    by (cases "snd q") auto
  from doms ps dp have vv: "v \<noteq> v'" by auto
  define x :: pair where "x = {(fst p, v'), (fst q, w)}"
  have xin: "x \<in> set (all_pairs_list ps)"
    by (auto simp: ps x_def pairs_between_def dp dq)
  have ne: "\<forall>r \<in> set (q # rest). snd r \<noteq> []" using doms ps by auto
  have never: "x \<notin> pairs_of_test ps (map snd (build_candidate uncovered [] ps))" for uncovered
  proof
    assume a: "x \<in> pairs_of_test ps (map snd (build_candidate uncovered [] ps))"
    from first_value_always_first [of p v "v' # vs" "q # rest" uncovered] dp ne
    obtain more where c: "build_candidate uncovered [] (p # q # rest) = (fst p, v) # more"
      "map fst more = map fst (q # rest)" by blast
    from c(1) have c': "build_candidate uncovered [] ps = (fst p, v) # more"
      by (simp only: ps)
    have zm: "zip (map fst more) (map snd more) = more" by (rule zip_map_fst_snd)
    have "zip (dict_keys ps) (map snd ((fst p, v) # more)) = (fst p, v) # more"
      using zm c(2) by (simp add: dict_keys_def ps)
    then have "zip (dict_keys ps) (map snd (build_candidate uncovered [] ps)) =
        (fst p, v) # more"
      by (simp only: c')
    with a have "x \<in> set (sub_pairs ((fst p, v) # more))" by (simp add: pairs_of_test_def)
    from sub_pairs_members [OF this] have "(fst p, v') \<in> set ((fst p, v) # more)"
      by (auto simp: x_def doubleton_eq_iff)
    with vv have "(fst p, v') \<in> set more" by simp
    then have "fst p \<in> set (map fst more)" by force
    with c(2) names ps show False by simp
  qed
  have "greedy_loop n ps (set (all_pairs_list ps)) {} [] = Inl InternalConsistencyError" for n
    by (rule greedy_loop_stuck [OF xin never]) simp
  moreover from len doms have "enumerate_pairs ps = Inr (set (all_pairs_list ps))"
    by (auto simp: enumerate_pairs_def)
  ultimately show ?thesis by (simp add: enumerate_and_build_def)
qed

end
